theory Spec2Isabelle
  imports Main
begin

section \<open>The DOM objects the module reads\<close>

text \<open>
  The module \<open>xsd\<close> is a set of query functions over a parsed XML document. It owns no
  data of its own: every function reads DOM objects handed in by the caller. This
  section models the part of the DOM the functions use.

  Strings are lists of code units; the model covers the code units that fit in one
  \<^typ>\<open>char\<close>. JavaScript's \<open>null\<close> and \<open>undefined\<close> are \<^term>\<open>None\<close>.
\<close>

datatype attr = Attr
  (attr_namespaceURI: "string option")
  (attr_prefix: "string option")
  (attr_localName: string)
  (attr_value: string)

datatype element = Element
  (el_namespaceURI: "string option")
  (el_prefix: "string option")
  (el_localName: string)
  (el_attributes: "attr list")
  (el_children: "element list")

text \<open>
  A DOM node knows its parent. A node handle is therefore the element together with the
  chain of its ancestors, nearest first; the root element has no ancestors. Only element
  children are kept, as in the \<open>children\<close> collection of the DOM.
\<close>

datatype node = Node (self: element) (ancestors: "element list")

datatype document = Document (doc_root: "element option")

datatype js_error = TypeError | SelectorNotModelled

definition documentElement :: "document \<Rightarrow> node option" where
  "documentElement doc = map_option (\<lambda>e. Node e []) (doc_root doc)"

definition namespaceURI_of :: "node \<Rightarrow> string option" where
  "namespaceURI_of n = el_namespaceURI (self n)"

definition localName_of :: "node \<Rightarrow> string" where
  "localName_of n = el_localName (self n)"

definition children_of :: "node \<Rightarrow> node list" where
  "children_of n = map (\<lambda>c. Node c (self n # ancestors n)) (el_children (self n))"

definition attr_qualifiedName :: "attr \<Rightarrow> string" where
  "attr_qualifiedName a =
     (case attr_prefix a of None \<Rightarrow> attr_localName a
      | Some p \<Rightarrow> p @ '':'' @ attr_localName a)"

text \<open>
  \<open>getAttribute(qualifiedName)\<close>: the value of the first attribute with that qualified
  name, or \<open>null\<close>.
\<close>

definition getAttribute :: "node \<Rightarrow> string \<Rightarrow> string option" where
  "getAttribute n qn =
     map_option attr_value
       (find (\<lambda>a. attr_qualifiedName a = qn) (el_attributes (self n)))"

text \<open>
  \<open>getAttributeNS(namespace, localName)\<close>: the empty namespace string stands for
  \<open>null\<close>.
\<close>

definition getAttributeNS :: "node \<Rightarrow> string option \<Rightarrow> string \<Rightarrow> string option" where
  "getAttributeNS n ns ln =
     map_option attr_value
       (find (\<lambda>a. attr_namespaceURI a = (if ns = Some [] then None else ns)
                  \<and> attr_localName a = ln)
          (el_attributes (self n)))"

definition xml_namespace :: string where
  "xml_namespace = ''http://www.w3.org/XML/1998/namespace''"

definition xmlns_namespace :: string where
  "xmlns_namespace = ''http://www.w3.org/2000/xmlns/''"

text \<open>
  The DOM's "locate a namespace" for an element and a prefix, run over the element and
  then its ancestors: the element's own name binds its prefix, an \<open>xmlns:p\<close> attribute
  binds \<open>p\<close>, an \<open>xmlns\<close> attribute binds the absent prefix, and an empty declaration
  unbinds.
\<close>

definition declares :: "string option \<Rightarrow> attr \<Rightarrow> bool" where
  "declares prefix a =
     (attr_namespaceURI a = Some xmlns_namespace \<and>
      (case prefix of
         Some p \<Rightarrow> attr_prefix a = Some ''xmlns'' \<and> attr_localName a = p
       | None \<Rightarrow> attr_prefix a = None \<and> attr_localName a = ''xmlns''))"

fun locate_namespace :: "element list \<Rightarrow> string option \<Rightarrow> string option" where
  "locate_namespace [] prefix = None"
| "locate_namespace (e # es) prefix =
     (if prefix = Some ''xml'' then Some xml_namespace
      else if prefix = Some ''xmlns'' then Some xmlns_namespace
      else if el_namespaceURI e \<noteq> None \<and> el_prefix e = prefix then el_namespaceURI e
      else case find (declares prefix) (el_attributes e) of
             Some a \<Rightarrow> (if attr_value a \<noteq> [] then Some (attr_value a) else None)
           | None \<Rightarrow> locate_namespace es prefix)"

definition lookupNamespaceURI :: "node \<Rightarrow> string option \<Rightarrow> string option" where
  "lookupNamespaceURI n prefix =
     locate_namespace (self n # ancestors n) (if prefix = Some [] then None else prefix)"

section \<open>JavaScript built-ins\<close>

text \<open>
  A JavaScript number as far as the module produces one: not-a-number, a double whose
  value is the integer \<open>n\<close>, or one of the two infinities. Negative zero is not told apart
  from zero.
\<close>

datatype number = NaN | Integer int | Infinity | NegInfinity

text \<open>
  The Number value of a mathematical integer. A double keeps 53 significant bits: a
  longer integer is rounded to the nearest multiple of the power of two that its
  length leaves over, a tie going to the even neighbour, and a magnitude that reaches
  \<open>2 ^ 1024\<close> after rounding becomes an infinity.
\<close>

fun bit_length :: "nat \<Rightarrow> nat" where
  "bit_length n = (if n = 0 then 0 else Suc (bit_length (n div 2)))"

declare bit_length.simps [simp del]

definition round_to_double :: "nat \<Rightarrow> nat" where
  "round_to_double n =
     (let e = bit_length n - 53;
          q = n div 2 ^ e;
          r = n mod 2 ^ e;
          q' = (if 2 ^ e < 2 * r \<or> (2 * r = 2 ^ e \<and> odd q) then q + 1 else q)
      in q' * 2 ^ e)"

definition to_number :: "int \<Rightarrow> number" where
  "to_number i =
     (let m = round_to_double (nat \<bar>i\<bar>)
      in if 2 ^ 1024 \<le> m then (if i < 0 then NegInfinity else Infinity)
         else Integer (if i < 0 then - int m else int m))"

definition is_white_space :: "char \<Rightarrow> bool" where
  "is_white_space c = (of_char c \<in> {9, 10, 11, 12, 13, 32, 160 :: nat})"

definition is_digit :: "char \<Rightarrow> bool" where
  "is_digit c = ((48 :: nat) \<le> of_char c \<and> of_char c \<le> (57 :: nat))"

definition digit_value :: "char \<Rightarrow> nat" where
  "digit_value c = of_char c - 48"

text \<open>
  \<open>parseInt(string, 10)\<close>: leading white space is skipped, one sign is read, then the
  longest run of decimal digits; what follows the digits is ignored. No digit gives
  \<open>NaN\<close>; otherwise the result is the Number value of the signed integer the digits
  write, every digit taken as written. Nothing is raised.
\<close>

definition parseInt10 :: "string \<Rightarrow> number" where
  "parseInt10 string =
     (let S = dropWhile is_white_space string;
          sign = (if S \<noteq> [] \<and> hd S = CHR ''-'' then - 1 else (1 :: int));
          S' = (if S \<noteq> [] \<and> (hd S = CHR ''+'' \<or> hd S = CHR ''-'') then tl S else S);
          Z = takeWhile is_digit S'
      in if Z = [] then NaN
         else to_number (sign * int (foldl (\<lambda>acc c. 10 * acc + digit_value c) 0 Z)))"

text \<open>
  \<open>string.split(':')\<close>: the pieces between successive separators; a string without the
  separator is its own single piece.
\<close>

function split :: "char \<Rightarrow> string \<Rightarrow> string list" where
  "split sep s =
     (case dropWhile (\<lambda>c. c \<noteq> sep) s of
        [] \<Rightarrow> [s]
      | _ # rest \<Rightarrow> takeWhile (\<lambda>c. c \<noteq> sep) s # split sep rest)"
  by pat_completeness auto
termination
proof (relation "measure (\<lambda>(sep, s). length s)")
  show "wf (measure (\<lambda>(sep, s). length s))" by simp
next
  fix sep :: char and s x21 x22
  assume "dropWhile (\<lambda>c. c \<noteq> sep) s = x21 # x22"
  then have "length x22 < length (dropWhile (\<lambda>c. c \<noteq> sep) s)" by simp
  also have "\<dots> \<le> length s" by (rule length_dropWhile_le)
  finally show "((sep, x22), (sep, s)) \<in> measure (\<lambda>(sep, s). length s)" by simp
qed

declare split.simps [simp del]

text \<open>Reading an array element: out of range gives \<open>undefined\<close>.\<close>

fun element_at :: "'a list \<Rightarrow> nat \<Rightarrow> 'a option" where
  "element_at [] i = None"
| "element_at (x # xs) 0 = Some x"
| "element_at (x # xs) (Suc i) = element_at xs i"

section \<open>The module \<open>xsd\<close>\<close>

definition xs :: string where
  "xs = ''http://www.w3.org/2001/XMLSchema''"


record occurs =
  min_occ :: number
  max_occ :: number

definition parseMinMaxOccurs :: "node \<Rightarrow> occurs" where
  "parseMinMaxOccurs xsdNode =
     (let min0 = getAttribute xsdNode ''minOccurs'';
          min1 = (case min0 of
                    None \<Rightarrow> Integer 1
                  | Some m \<Rightarrow> if m = [] then Integer 1 else parseInt10 m);
          max0 = getAttribute xsdNode ''maxOccurs'';
          max1 = (case max0 of
                    None \<Rightarrow> Integer 1
                  | Some m \<Rightarrow> if m = [] then Integer 1
                             else if m = ''unbounded'' then Infinity
                             else parseInt10 m)
      in \<lparr>min_occ = min1, max_occ = max1\<rparr>)"

record type_ref =
  namespaceURI :: "string option"
  name :: "string option"

text \<open>
  \<open>_(collection).find(predicate)\<close> of the underscore library is \<^const>\<open>find\<close>: the first
  member, in order, that satisfies the predicate, or \<open>undefined\<close>.
\<close>

definition findElement :: "document \<Rightarrow> string \<Rightarrow> js_error + node option" where
  "findElement doc nm =
     (case documentElement doc of
        None \<Rightarrow> Inl TypeError
      | Some root \<Rightarrow>
          Inr (find (\<lambda>child. namespaceURI_of child = Some xs
                            \<and> localName_of child = ''element''
                            \<and> getAttribute child ''name'' = Some nm)
                 (children_of root)))"

definition getTypeFromNodeAttr :: "node \<Rightarrow> string \<Rightarrow> string option \<Rightarrow> type_ref option" where
  "getTypeFromNodeAttr node typeAttr typeAttrNS =
     (let ty = (if typeAttrNS \<noteq> None \<and> typeAttrNS \<noteq> Some []
                then getAttributeNS node typeAttrNS typeAttr
                else getAttribute node typeAttr)
      in case ty of
           None \<Rightarrow> None
         | Some t \<Rightarrow>
             if t = [] then None
             else (let parts = split CHR '':'' t
                   in Some \<lparr>namespaceURI = lookupNamespaceURI node (element_at parts 0),
                            name = element_at parts 1\<rparr>))"

definition getRestrictedType :: "node \<Rightarrow> type_ref option" where
  "getRestrictedType node =
     (let element = find (\<lambda>child. namespaceURI_of child = Some xs
                                \<and> localName_of child = ''restriction'')
                      (children_of node)
      in case element of
           Some e \<Rightarrow> getTypeFromNodeAttr e ''base'' None
         | None \<Rightarrow> None)"

text \<open>
  Reading \<open>children\<close> of \<open>undefined\<close> raises a \<open>TypeError\<close>.
\<close>

definition findRestrictingFacets :: "node \<Rightarrow> js_error + node list" where
  "findRestrictingFacets node =
     (let element = find (\<lambda>child. namespaceURI_of child = Some xs
                                \<and> localName_of child = ''restriction'')
                      (children_of node)
      in case element of
           Some e \<Rightarrow> Inr (children_of e)
         | None \<Rightarrow> Inl TypeError)"

subsection \<open>Selector queries\<close>

text \<open>
  \<open>findTypeDefinition\<close> builds a selector text and hands it to \<open>querySelectorAll\<close>. The
  selector engine is modelled on the fragment such texts fall in: a comma-separated
  list of compound selectors \<open>type[attribute="value"]\<close>, written without white space,
  with identifiers of ASCII letters, digits, \<open>_\<close> and \<open>-\<close>, and a value without escapes
  and without the character U+0000.
  On any other text the DOM either raises \<open>SyntaxError\<close> or evaluates a selector beyond
  this fragment; the model answers \<^const>\<open>SelectorNotModelled\<close> for both.
\<close>

datatype selector = Selector (sel_type: string) (sel_attr: string) (sel_value: string)

definition is_ident_start :: "char \<Rightarrow> bool" where
  "is_ident_start c =
     (((65 :: nat) \<le> of_char c \<and> of_char c \<le> (90 :: nat))
      \<or> ((97 :: nat) \<le> of_char c \<and> of_char c \<le> (122 :: nat))
      \<or> c = CHR ''_'')"

definition is_ident_char :: "char \<Rightarrow> bool" where
  "is_ident_char c = (is_ident_start c \<or> is_digit c \<or> c = CHR ''-'')"

definition take_ident :: "string \<Rightarrow> (string \<times> string) option" where
  "take_ident s =
     (case s of
        [] \<Rightarrow> None
      | c # _ \<Rightarrow>
          if is_ident_start c
          then Some (takeWhile is_ident_char s, dropWhile is_ident_char s)
          else None)"

definition expect :: "char \<Rightarrow> string \<Rightarrow> string option" where
  "expect c s = (case s of [] \<Rightarrow> None | x # r \<Rightarrow> if x = c then Some r else None)"

text \<open>
  Inside a double-quoted value: a quote ends it, a backslash starts an escape, a line
  break is an error and the character U+0000 is replaced by another one.
\<close>

definition is_plain_char :: "char \<Rightarrow> bool" where
  "is_plain_char c = (c \<notin> {CHR 0x22, CHR 0x5C, CHR 0x0A, CHR 0x0C, CHR 0x0D, CHR 0x00})"

definition take_value :: "string \<Rightarrow> (string \<times> string) option" where
  "take_value s =
     (case dropWhile is_plain_char s of
        [] \<Rightarrow> None
      | c # r \<Rightarrow> if c = CHR 0x22 then Some (takeWhile is_plain_char s, r) else None)"

definition parse_compound :: "string \<Rightarrow> (selector \<times> string) option" where
  "parse_compound s =
     Option.bind (take_ident s) (\<lambda>(t, s1).
     Option.bind (expect CHR ''['' s1) (\<lambda>s2.
     Option.bind (take_ident s2) (\<lambda>(a, s3).
     Option.bind (expect CHR ''='' s3) (\<lambda>s4.
     Option.bind (expect CHR 0x22 s4) (\<lambda>s5.
     Option.bind (take_value s5) (\<lambda>(v, s6).
     Option.bind (expect CHR '']'' s6) (\<lambda>s7.
     Some (Selector t a v, s7))))))))"

text \<open>A selector list: compound selectors separated by commas.\<close>

function parse_selectors :: "string \<Rightarrow> selector list option" where
  "parse_selectors s =
     (case parse_compound s of
        None \<Rightarrow> None
      | Some (sel, r) \<Rightarrow>
          (case r of
             [] \<Rightarrow> Some [sel]
           | c # r' \<Rightarrow>
               if c = CHR '','' then map_option ((#) sel) (parse_selectors r') else None))"
  by pat_completeness auto
termination
proof (relation "measure length")
  show "wf (measure length)" by simp
next
  fix s :: string and x2 sel r c r'
  assume pc: "parse_compound s = Some x2" and x2: "(sel, r) = x2" and r: "r = c # r'"
  have ident: "\<And>u t v. take_ident u = Some (t, v) \<Longrightarrow> length v \<le> length u"
  proof -
    fix u t v assume "take_ident u = Some (t, v)"
    then have "v = dropWhile is_ident_char u"
      by (simp add: take_ident_def split: list.splits if_splits)
    then show "length v \<le> length u" by (simp add: length_dropWhile_le)
  qed
  have exp: "\<And>ch u v. expect ch u = Some v \<Longrightarrow> length v < length u"
    by (auto simp: expect_def split: list.splits if_splits)
  have val: "\<And>u t v. take_value u = Some (t, v) \<Longrightarrow> length v < length u"
  proof -
    fix u t v assume "take_value u = Some (t, v)"
    then have "dropWhile is_plain_char u = CHR 0x22 # v"
      by (auto simp: take_value_def split: list.splits if_splits)
    then have "length v < length (dropWhile is_plain_char u)" by simp
    also have "\<dots> \<le> length u" by (rule length_dropWhile_le)
    finally show "length v < length u" .
  qed
  from pc x2 have "length r < length s"
    by (auto simp: parse_compound_def Option.bind_eq_Some_conv dest!: ident exp val)
  with r show "(r', s) \<in> measure length" by simp
qed

declare parse_selectors.simps [simp del]

text \<open>
  The elements of a subtree in tree order (an element before its children, children
  left to right), each with its chain of ancestors.
\<close>

fun subtree :: "element list \<Rightarrow> element \<Rightarrow> node list" where
  "subtree anc (Element ns p ln as cs) =
     Node (Element ns p ln as cs) anc
       # concat (map (subtree (Element ns p ln as cs # anc)) cs)"

text \<open>
  In an XML document a type selector without a namespace prefix compares the local
  name only, whatever the element's namespace; an attribute selector without a prefix
  selects attributes in no namespace.
\<close>

definition matches :: "selector \<Rightarrow> node \<Rightarrow> bool" where
  "matches sel n =
     (localName_of n = sel_type sel \<and>
      list_ex (\<lambda>a. attr_namespaceURI a = None
                 \<and> attr_localName a = sel_attr sel
                 \<and> attr_value a = sel_value sel)
        (el_attributes (self n)))"

definition querySelectorAll :: "document \<Rightarrow> string \<Rightarrow> js_error + node list" where
  "querySelectorAll doc selectors =
     (case parse_selectors selectors of
        None \<Rightarrow> Inl SelectorNotModelled
      | Some sels \<Rightarrow>
          Inr (filter (\<lambda>n. list_ex (\<lambda>sel. matches sel n) sels)
                 (case doc_root doc of None \<Rightarrow> [] | Some r \<Rightarrow> subtree [] r)))"

definition findTypeDefinition :: "document \<Rightarrow> string \<Rightarrow> js_error + node list" where
  \<open>findTypeDefinition doc ty =
     (let selector = ''complexType[name="'' @ ty @ ''"],''
                   @ ''simpleType[name="'' @ ty @ ''"]''
      in querySelectorAll doc selector)\<close>

section \<open>Calls on the module and the state they can reach\<close>

text \<open>
  What a call can read or write beyond its arguments is made explicit here: the two
  members \<open>xs\<close> and \<open>xsi\<close> of the module object, the \<open>find\<close> function reached through the
  global \<open>_\<close>, and the documents the caller holds. A call names a document by its number
  and a node by the number of its document and the path of child positions from the
  root element; a number or path that names nothing stands for \<open>null\<close>, on which every
  member access raises a \<open>TypeError\<close>.
\<close>

record world =
  xsd_xs :: string
  xsd_xsi :: string
  underscore_find :: "(node \<Rightarrow> bool) \<Rightarrow> node list \<Rightarrow> node option"
  documents :: "document list"

fun node_at :: "element list \<Rightarrow> element \<Rightarrow> nat list \<Rightarrow> node option" where
  "node_at anc e [] = Some (Node e anc)"
| "node_at anc e (i # p) =
     (if i < length (el_children e) then node_at (e # anc) (el_children e ! i) p else None)"

definition document_of :: "world \<Rightarrow> nat \<Rightarrow> document option" where
  "document_of w d = (if d < length (documents w) then Some (documents w ! d) else None)"

definition node_of :: "world \<Rightarrow> nat \<times> nat list \<Rightarrow> node option" where
  "node_of w r =
     (case document_of w (fst r) of
        None \<Rightarrow> None
      | Some doc \<Rightarrow>
          (case doc_root doc of None \<Rightarrow> None | Some e \<Rightarrow> node_at [] e (snd r)))"

text \<open>
  Each function of the module once more, now reading \<open>xsd.xs\<close> and \<open>_\<close> from that state
  and returning the state it leaves behind. A call is a method call on the module
  object, so \<open>this.getTypeFromNodeAttr\<close> is the module's own function, and the state it
  returns is handed on.
\<close>

datatype outcome =
    Raised js_error
  | Found "node option"
  | Nodes "node list"
  | TypeRef "type_ref option"
  | Occurs occurs

definition call_findElement :: "nat \<Rightarrow> string \<Rightarrow> world \<Rightarrow> outcome \<times> world" where
  "call_findElement d nm w =
     (case document_of w d of
        None \<Rightarrow> (Raised TypeError, w)
      | Some doc \<Rightarrow>
          (case documentElement doc of
             None \<Rightarrow> (Raised TypeError, w)
           | Some root \<Rightarrow>
               (Found (underscore_find w
                         (\<lambda>child. namespaceURI_of child = Some (xsd_xs w)
                                  \<and> localName_of child = ''element''
                                  \<and> getAttribute child ''name'' = Some nm)
                         (children_of root)), w)))"

definition call_findTypeDefinition :: "nat \<Rightarrow> string \<Rightarrow> world \<Rightarrow> outcome \<times> world" where
  "call_findTypeDefinition d ty w =
     (case document_of w d of
        None \<Rightarrow> (Raised TypeError, w)
      | Some doc \<Rightarrow>
          (case findTypeDefinition doc ty of
             Inl err \<Rightarrow> (Raised err, w)
           | Inr ns \<Rightarrow> (Nodes ns, w)))"

definition this_getTypeFromNodeAttr ::
    "node \<Rightarrow> string \<Rightarrow> string option \<Rightarrow> world \<Rightarrow> type_ref option \<times> world" where
  "this_getTypeFromNodeAttr node typeAttr typeAttrNS w =
     (getTypeFromNodeAttr node typeAttr typeAttrNS, w)"

definition call_getTypeFromNodeAttr ::
    "nat \<times> nat list \<Rightarrow> string \<Rightarrow> string option \<Rightarrow> world \<Rightarrow> outcome \<times> world" where
  "call_getTypeFromNodeAttr r typeAttr typeAttrNS w =
     (case node_of w r of
        None \<Rightarrow> (Raised TypeError, w)
      | Some node \<Rightarrow>
          (case this_getTypeFromNodeAttr node typeAttr typeAttrNS w of
             (t, w') \<Rightarrow> (TypeRef t, w')))"

definition call_getRestrictedType :: "nat \<times> nat list \<Rightarrow> world \<Rightarrow> outcome \<times> world" where
  "call_getRestrictedType r w =
     (case node_of w r of
        None \<Rightarrow> (Raised TypeError, w)
      | Some node \<Rightarrow>
          (case underscore_find w
                  (\<lambda>child. namespaceURI_of child = Some (xsd_xs w)
                           \<and> localName_of child = ''restriction'')
                  (children_of node) of
             Some e \<Rightarrow>
               (case this_getTypeFromNodeAttr e ''base'' None w of
                  (t, w') \<Rightarrow> (TypeRef t, w'))
           | None \<Rightarrow> (TypeRef None, w)))"

definition call_findRestrictingFacets :: "nat \<times> nat list \<Rightarrow> world \<Rightarrow> outcome \<times> world" where
  "call_findRestrictingFacets r w =
     (case node_of w r of
        None \<Rightarrow> (Raised TypeError, w)
      | Some node \<Rightarrow>
          (case underscore_find w
                  (\<lambda>child. namespaceURI_of child = Some (xsd_xs w)
                           \<and> localName_of child = ''restriction'')
                  (children_of node) of
             Some e \<Rightarrow> (Nodes (children_of e), w)
           | None \<Rightarrow> (Raised TypeError, w)))"

definition call_parseMinMaxOccurs :: "nat \<times> nat list \<Rightarrow> world \<Rightarrow> outcome \<times> world" where
  "call_parseMinMaxOccurs r w =
     (case node_of w r of
        None \<Rightarrow> (Raised TypeError, w)
      | Some xsdNode \<Rightarrow> (Occurs (parseMinMaxOccurs xsdNode), w))"

text \<open>
  One call, and a sequence of calls each starting in the state the one before left.
\<close>

datatype call =
    FindElement nat string
  | FindTypeDefinition nat string
  | GetTypeFromNodeAttr "nat \<times> nat list" string "string option"
  | GetRestrictedType "nat \<times> nat list"
  | FindRestrictingFacets "nat \<times> nat list"
  | ParseMinMaxOccurs "nat \<times> nat list"

fun invoke :: "call \<Rightarrow> world \<Rightarrow> outcome \<times> world" where
  "invoke (FindElement d nm) w = call_findElement d nm w"
| "invoke (FindTypeDefinition d ty) w = call_findTypeDefinition d ty w"
| "invoke (GetTypeFromNodeAttr r a ns) w = call_getTypeFromNodeAttr r a ns w"
| "invoke (GetRestrictedType r) w = call_getRestrictedType r w"
| "invoke (FindRestrictingFacets r) w = call_findRestrictingFacets r w"
| "invoke (ParseMinMaxOccurs r) w = call_parseMinMaxOccurs r w"


section \<open>Predicates used to state the properties\<close>

text \<open>
  The two tests the module applies to child elements, the attribute read that
  \<open>getTypeFromNodeAttr\<close> starts with, and the texts that begin, after white space and at
  most one sign, with a decimal digit.
\<close>

definition xs_restriction :: "node \<Rightarrow> bool" where
  "xs_restriction c = (namespaceURI_of c = Some xs \<and> localName_of c = ''restriction'')"

definition xs_element_named :: "string \<Rightarrow> node \<Rightarrow> bool" where
  "xs_element_named nm c =
     (namespaceURI_of c = Some xs \<and> localName_of c = ''element''
      \<and> getAttribute c ''name'' = Some nm)"

definition read_attr :: "node \<Rightarrow> string \<Rightarrow> string option \<Rightarrow> string option" where
  "read_attr node typeAttr typeAttrNS =
     (case typeAttrNS of
        None \<Rightarrow> getAttribute node typeAttr
      | Some ns \<Rightarrow> if ns = [] then getAttribute node typeAttr
                  else getAttributeNS node (Some ns) typeAttr)"

definition has_leading_digits :: "string \<Rightarrow> bool" where
  "has_leading_digits s =
     (case dropWhile is_white_space s of
        [] \<Rightarrow> False
      | c # r \<Rightarrow>
          if c = CHR ''+'' \<or> c = CHR ''-''
          then (case r of [] \<Rightarrow> False | d # _ \<Rightarrow> is_digit d)
          else is_digit c)"

text \<open>The decimal numeral of a natural number.\<close>

fun decimal :: "nat \<Rightarrow> string" where
  "decimal k =
     (if k < 10 then [char_of (48 + k)]
      else decimal (k div 10) @ [char_of (48 + k mod 10)])"

declare decimal.simps [simp del]

section \<open>Example documents\<close>

text \<open>
  A schema with a complex type \<open>Order\<close> holding a nested element \<open>item\<close>, a root
  element \<open>order\<close> and a simple type \<open>Code\<close> restricting \<open>xs:string\<close>; then single
  elements with unusual attribute texts, and a schema holding a \<open>complexType\<close> element of
  another namespace.
\<close>

definition facet_el :: element where
  "facet_el = Element (Some xs) (Some ''xs'') ''maxLength'' [Attr None None ''value'' ''3''] []"

definition restriction_el :: element where
  "restriction_el =
     Element (Some xs) (Some ''xs'') ''restriction'' [Attr None None ''base'' ''xs:string'']
       [facet_el]"

definition code_type_el :: element where
  "code_type_el =
     Element (Some xs) (Some ''xs'') ''simpleType'' [Attr None None ''name'' ''Code'']
       [restriction_el]"

definition item_el :: element where
  "item_el =
     Element (Some xs) (Some ''xs'') ''element''
       [Attr None None ''name'' ''item'', Attr None None ''type'' ''xs:string'',
        Attr None None ''minOccurs'' ''0'', Attr None None ''maxOccurs'' ''5'']
       []"

definition order_type_el :: element where
  "order_type_el =
     Element (Some xs) (Some ''xs'') ''complexType'' [Attr None None ''name'' ''Order'']
       [item_el]"

definition order_el :: element where
  "order_el =
     Element (Some xs) (Some ''xs'') ''element''
       [Attr None None ''name'' ''order'', Attr None None ''type'' ''Order'']
       []"

definition schema_el :: element where
  "schema_el =
     Element (Some xs) (Some ''xs'') ''schema''
       [Attr (Some xmlns_namespace) (Some ''xmlns'') ''xs'' xs]
       [order_type_el, order_el, code_type_el]"

definition schema_doc :: document where
  "schema_doc = Document (Some schema_el)"


definition schema_node :: node where
  "schema_node = Node schema_el []"

definition item_node :: node where
  "item_node = Node item_el [order_type_el, schema_el]"

definition order_node :: node where
  "order_node = Node order_el [schema_el]"

definition code_type_node :: node where
  "code_type_node = Node code_type_el [schema_el]"

definition restriction_node :: node where
  "restriction_node = Node restriction_el [code_type_el, schema_el]"

definition two_colons :: node where
  "two_colons =
     Node (Element (Some xs) (Some ''xs'') ''element''
             [Attr (Some xmlns_namespace) (Some ''xmlns'') ''a'' ''urn:a'',
              Attr None None ''type'' ''a:b:c'']
             [])
       []"

definition digits_then_text :: node where
  "digits_then_text =
     Node (Element (Some xs) (Some ''xs'') ''element'' [Attr None None ''minOccurs'' ''5abc''] [])
       []"

definition no_digits :: node where
  "no_digits =
     Node (Element (Some xs) (Some ''xs'') ''element'' [Attr None None ''minOccurs'' ''many''] [])
       []"

definition foreign_type_el :: element where
  "foreign_type_el =
     Element (Some ''urn:other'') None ''complexType'' [Attr None None ''name'' ''T''] []"

definition foreign_schema_el :: element where
  "foreign_schema_el =
     Element (Some xs) (Some ''xs'') ''schema''
       [Attr (Some xmlns_namespace) (Some ''xmlns'') ''xs'' xs]
       [foreign_type_el]"

definition foreign_doc :: document where
  "foreign_doc = Document (Some foreign_schema_el)"

section \<open>Supporting lemmas\<close>

subsection \<open>Rounding to a double\<close>

lemma bit_length_le: "n < 2 ^ k \<Longrightarrow> bit_length n \<le> k"
proof (induction k arbitrary: n)
  case 0
  then show ?case by (subst bit_length.simps) simp
next
  case (Suc k)
  then have "n div 2 < 2 ^ k" by simp
  then have "bit_length (n div 2) \<le> k" by (rule Suc.IH)
  then show ?case by (subst bit_length.simps) simp
qed

lemma bit_length_ge: "2 ^ k \<le> n \<Longrightarrow> k < bit_length n"
proof (induction k arbitrary: n)
  case 0
  then show ?case by (subst bit_length.simps) simp
next
  case (Suc k)
  then have "2 ^ k \<le> n div 2" by simp
  then have "k < bit_length (n div 2)" by (rule Suc.IH)
  moreover have "(0::nat) < 2 ^ Suc k" by simp
  with Suc.prems have "n \<noteq> 0" by linarith
  ultimately show ?case by (subst bit_length.simps) simp
qed

lemma bit_length_eq: "2 ^ k \<le> n \<Longrightarrow> n < 2 ^ Suc k \<Longrightarrow> bit_length n = Suc k"
  using bit_length_ge [of k n] bit_length_le [of n "Suc k"] by simp

lemma bit_length_lower: "n \<noteq> 0 \<Longrightarrow> 2 ^ (bit_length n - 1) \<le> n"
proof (induction n rule: bit_length.induct)
  case (1 n)
  show ?case
  proof (cases "n div 2 = 0")
    case True
    with 1 have "n = 1" by (auto simp: div_eq_0_iff)
    then show ?thesis by (subst bit_length.simps, subst bit_length.simps) simp
  next
    case False
    with 1 have ih: "2 ^ (bit_length (n div 2) - 1) \<le> n div 2" by simp
    from False have "0 < bit_length (n div 2)" by (subst bit_length.simps) simp
    then have "(2::nat) ^ bit_length (n div 2) = 2 * 2 ^ (bit_length (n div 2) - 1)"
      by (cases "bit_length (n div 2)") simp_all
    with ih have "2 ^ bit_length (n div 2) \<le> 2 * (n div 2)" by simp
    also have "\<dots> \<le> n" by simp
    finally show ?thesis using 1(2) by (subst bit_length.simps) simp
  qed
qed

lemma round_to_double_small: "n < 2 ^ 53 \<Longrightarrow> round_to_double n = n"
  using bit_length_le [of n 53] by (simp add: round_to_double_def)

lemma to_number_small: "\<bar>i\<bar> < 2 ^ 53 \<Longrightarrow> to_number i = Integer i"
proof -
  assume a: "\<bar>i\<bar> < 2 ^ 53"
  then have "nat \<bar>i\<bar> < 2 ^ 53" by (simp add: nat_less_iff)
  then have r: "round_to_double (nat \<bar>i\<bar>) = nat \<bar>i\<bar>" by (rule round_to_double_small)
  have "(2::nat) ^ 53 < 2 ^ 1024" by simp
  with \<open>nat \<bar>i\<bar> < 2 ^ 53\<close> have "\<not> (2::nat) ^ 1024 \<le> nat \<bar>i\<bar>" by linarith
  then show ?thesis by (simp add: to_number_def r Let_def)
qed

lemma to_number_not_NaN: "to_number i \<noteq> NaN"
  by (simp add: to_number_def Let_def)

lemma round_to_double_large:
  assumes "2 ^ 1024 \<le> n"
  shows "2 ^ 1024 \<le> round_to_double n"
proof -
  let ?b = "bit_length n"
  let ?e = "?b - 53"
  define c :: nat where "c = 2 ^ 52"
  from assms have b: "1024 < ?b" by (rule bit_length_ge)
  have "(0::nat) < 2 ^ 1024" by simp
  with assms have n0: "n \<noteq> 0" by linarith
  from b have eq: "?b - 1 = 52 + ?e" by simp
  have split: "(2::nat) ^ (?b - 1) = c * 2 ^ ?e"
    unfolding eq c_def by (rule power_add)
  have "(2::nat) ^ 1024 \<le> 2 ^ (?b - 1)" using b by (intro power_increasing) simp_all
  then have 1: "2 ^ 1024 \<le> c * 2 ^ ?e" by (simp only: split)
  from bit_length_lower [OF n0] have "c * 2 ^ ?e \<le> n" by (simp only: split)
  then have "(c * 2 ^ ?e) div 2 ^ ?e \<le> n div 2 ^ ?e" by (rule div_le_mono)
  then have "c \<le> n div 2 ^ ?e" by simp
  then have 2: "c * 2 ^ ?e \<le> (n div 2 ^ ?e) * 2 ^ ?e" by (rule mult_le_mono1)
  have 3: "(n div 2 ^ ?e) * 2 ^ ?e \<le> round_to_double n"
    by (simp add: round_to_double_def Let_def)
  from 1 2 3 show ?thesis by linarith
qed

lemma to_number_large: "2 ^ 1024 \<le> i \<Longrightarrow> to_number i = Infinity"
proof -
  assume a: "2 ^ 1024 \<le> i"
  then have "2 ^ 1024 \<le> nat \<bar>i\<bar>" by (simp add: le_nat_iff)
  then have "2 ^ 1024 \<le> round_to_double (nat \<bar>i\<bar>)" by (rule round_to_double_large)
  moreover have "(0::int) < 2 ^ 1024" by simp
  with a have "\<not> i < 0" by linarith
  ultimately show ?thesis by (simp add: to_number_def Let_def)
qed

lemma round_tie_to_even: "round_to_double 9007199254740993 = 9007199254740992"
proof -
  have "bit_length 9007199254740993 = Suc 53"
    by (rule bit_length_eq) simp_all
  then show ?thesis by (simp add: round_to_double_def Let_def)
qed

subsection \<open>Splitting and parsing\<close>

lemma split_Nil: "dropWhile (\<lambda>x. x \<noteq> c) t = [] \<Longrightarrow> split c t = [t]"
  by (subst split.simps) (simp only: list.case)

lemma split_Cons:
  "dropWhile (\<lambda>x. x \<noteq> c) t = y # rest \<Longrightarrow> split c t = takeWhile (\<lambda>x. x \<noteq> c) t # split c rest"
  by (subst split.simps) (simp only: list.case)

lemma split_first: "element_at (split c t) 0 = Some (takeWhile (\<lambda>x. x \<noteq> c) t)"
proof (cases "dropWhile (\<lambda>x. x \<noteq> c) t")
  case Nil
  from Nil have "\<forall>x\<in>set t. x \<noteq> c" by (simp add: dropWhile_eq_Nil_conv)
  then have tw: "takeWhile (\<lambda>x. x \<noteq> c) t = t" by (rule takeWhile_eq_all_conv [THEN iffD2])
  show ?thesis by (simp add: split_Nil [OF Nil] tw)
next
  case (Cons y rest)
  show ?thesis by (simp add: split_Cons [OF Cons])
qed

lemma split_second:
  "element_at (split c t) (Suc 0) =
     (if c \<in> set t then Some (takeWhile (\<lambda>x. x \<noteq> c) (tl (dropWhile (\<lambda>x. x \<noteq> c) t)))
      else None)"
proof (cases "dropWhile (\<lambda>x. x \<noteq> c) t")
  case Nil
  then have "c \<notin> set t" by (auto simp: dropWhile_eq_Nil_conv)
  then show ?thesis by (simp add: split_Nil [OF Nil])
next
  case (Cons y rest)
  have "c \<in> set t"
  proof (rule ccontr)
    assume "c \<notin> set t"
    then have "dropWhile (\<lambda>x. x \<noteq> c) t = []" by (auto simp: dropWhile_eq_Nil_conv)
    with Cons show False by simp
  qed
  moreover have "tl (dropWhile (\<lambda>x. x \<noteq> c) t) = rest" by (simp only: Cons list.sel)
  ultimately show ?thesis by (simp add: split_Cons [OF Cons] split_first)
qed

lemma parseInt10_NaN_iff: "parseInt10 s = NaN \<longleftrightarrow> \<not> has_leading_digits s"
proof (cases "dropWhile is_white_space s")
  case Nil
  show ?thesis unfolding parseInt10_def has_leading_digits_def Nil by simp
next
  case (Cons c r)
  show ?thesis
  proof (cases "c = CHR ''+'' \<or> c = CHR ''-''")
    case True
    then show ?thesis unfolding parseInt10_def has_leading_digits_def Cons
      by (cases r) (auto simp: Let_def is_digit_def to_number_not_NaN)
  next
    case False
    then show ?thesis unfolding parseInt10_def has_leading_digits_def Cons
      by (auto simp: Let_def to_number_not_NaN)
  qed
qed

lemma parseInt10_samples:
  "parseInt10 ''0'' = Integer 0"
  "parseInt10 ''5'' = Integer 5"
  by (simp_all add: parseInt10_def is_white_space_def is_digit_def digit_value_def
      to_number_small)

lemma digit_not_space_or_sign:
  "is_digit d \<Longrightarrow> \<not> is_white_space d \<and> d \<noteq> CHR ''+'' \<and> d \<noteq> CHR ''-''"
  by (auto simp: is_digit_def is_white_space_def)

lemma parseInt10_digit_first:
  assumes "is_digit d"
  shows "parseInt10 (d # ys) =
           to_number (int (foldl (\<lambda>acc c. 10 * acc + digit_value c) 0
                             (d # takeWhile is_digit ys)))"
  using assms digit_not_space_or_sign [OF assms] by (simp add: parseInt10_def Let_def)

lemma parseInt10_leading_digits:
  assumes "ds \<noteq> []" and "list_all is_digit ds" and "\<not> is_digit c"
  shows "parseInt10 (ds @ c # rest) = parseInt10 ds"
proof -
  from assms(1) obtain d ds' where ds: "ds = d # ds'" by (cases ds) auto
  with assms(2) have d: "is_digit d" and all: "\<And>x. x \<in> set ds' \<Longrightarrow> is_digit x"
    by (simp_all add: list_all_iff)
  from all assms(3) have t1: "takeWhile is_digit (ds' @ c # rest) = ds'"
    by (simp add: takeWhile_append2)
  from all have t2: "takeWhile is_digit ds' = ds'"
    by (auto intro: takeWhile_eq_all_conv [THEN iffD2])
  have "parseInt10 (d # (ds' @ c # rest)) = parseInt10 (d # ds')"
    by (simp only: parseInt10_digit_first [OF d] t1 t2)
  then show ?thesis by (simp add: ds)
qed

lemma digit_char:
  "d < 10 \<Longrightarrow> is_digit (char_of (48 + d)) \<and> digit_value (char_of (48 + d)) = d"
  by (simp add: is_digit_def digit_value_def)

lemma decimal_digits: "list_all is_digit (decimal k) \<and> decimal k \<noteq> []"
proof (induction k rule: decimal.induct)
  case (1 k)
  show ?case
  proof (cases "k < 10")
    case True
    then show ?thesis by (subst (1 2) decimal.simps) (simp add: digit_char)
  next
    case False
    have "k mod 10 < 10" by simp
    with False 1 show ?thesis by (subst (1 2) decimal.simps) (simp add: digit_char)
  qed
qed

lemma decimal_value:
  "foldl (\<lambda>acc c. 10 * acc + digit_value c) 0 (decimal k) = k"
proof (induction k rule: decimal.induct)
  case (1 k)
  show ?case
  proof (cases "k < 10")
    case True
    then show ?thesis by (subst decimal.simps) (simp add: digit_char)
  next
    case False
    have "k mod 10 < 10" by simp
    with False 1 show ?thesis by (subst decimal.simps) (simp add: digit_char)
  qed
qed

lemma parseInt10_decimal_number: "parseInt10 (decimal k) = to_number (int k)"
proof -
  from decimal_digits [of k] obtain d ds where ds: "decimal k = d # ds"
    and d: "is_digit d" and all: "list_all is_digit ds"
    by (cases "decimal k") auto
  from all have "takeWhile is_digit ds = ds"
    by (auto simp: list_all_iff intro: takeWhile_eq_all_conv [THEN iffD2])
  then have "parseInt10 (d # ds)
               = to_number (int (foldl (\<lambda>acc c. 10 * acc + digit_value c) 0 (d # ds)))"
    by (simp only: parseInt10_digit_first [OF d])
  then show ?thesis using decimal_value [of k] by (simp only: ds [symmetric])
qed

lemma parseInt10_decimal: "k < 2 ^ 53 \<Longrightarrow> parseInt10 (decimal k) = Integer (int k)"
proof -
  assume "k < 2 ^ 53"
  then have "\<bar>int k\<bar> < 2 ^ 53" by (simp add: of_nat_less_numeral_power_cancel_iff)
  then show ?thesis by (simp only: parseInt10_decimal_number to_number_small)
qed

text \<open>
  Beyond 53 bits the digits are not kept: \<open>2 ^ 53 + 1\<close> reads as \<open>2 ^ 53\<close>, and a numeral
  of \<open>2 ^ 1024\<close> or more reads as infinity.
\<close>

lemma parseInt10_rounds:
  "parseInt10 (decimal 9007199254740993) = Integer 9007199254740992"
proof -
  have "to_number 9007199254740993 = Integer 9007199254740992"
    using round_tie_to_even by (simp add: to_number_def Let_def)
  then show ?thesis by (simp add: parseInt10_decimal_number)
qed

lemma parseInt10_overflows: "2 ^ 1024 \<le> k \<Longrightarrow> parseInt10 (decimal k) = Infinity"
proof -
  assume "2 ^ 1024 \<le> k"
  then have "2 ^ 1024 \<le> int k" by (simp add: numeral_power_le_of_nat_cancel_iff)
  then show ?thesis by (simp only: parseInt10_decimal_number to_number_large)
qed

lemma decimal_not_unbounded: "decimal k \<noteq> ''unbounded''"
proof
  assume "decimal k = ''unbounded''"
  with decimal_digits [of k] have "is_digit CHR ''u''" by simp
  then show False by (simp add: is_digit_def)
qed

subsection \<open>Searching the children\<close>

lemma find_first_index:
  "i < length ys \<Longrightarrow> P (ys ! i) \<Longrightarrow> (\<forall>j<i. \<not> P (ys ! j)) \<Longrightarrow> find P ys = Some (ys ! i)"
  by (auto simp: find_Some_iff)

lemma find_restriction:
  "find (\<lambda>child. namespaceURI_of child = Some xs \<and> localName_of child = ''restriction'') cs
     = find xs_restriction cs"
  by (simp add: xs_restriction_def [abs_def])

lemma find_element_named:
  "find (\<lambda>child. namespaceURI_of child = Some xs \<and> localName_of child = ''element''
                  \<and> getAttribute child ''name'' = Some nm) cs
     = find (xs_element_named nm) cs"
  by (simp add: xs_element_named_def [abs_def])

lemma getTypeFromNodeAttr_read:
  "getTypeFromNodeAttr node typeAttr typeAttrNS =
     (case read_attr node typeAttr typeAttrNS of
        None \<Rightarrow> None
      | Some t \<Rightarrow>
          if t = [] then None
          else Some \<lparr>namespaceURI = lookupNamespaceURI node (element_at (split CHR '':'' t) 0),
                     name = element_at (split CHR '':'' t) (Suc 0)\<rparr>)"
  by (cases typeAttrNS)
    (simp_all add: getTypeFromNodeAttr_def read_attr_def Let_def split: option.split)

subsection \<open>The selector built by \<open>findTypeDefinition\<close>\<close>

lemma take_ident_complexType:
  "take_ident (''complexType'' @ CHR ''['' # r) = Some (''complexType'', CHR ''['' # r)"
  by (simp add: take_ident_def is_ident_start_def is_ident_char_def is_digit_def)

lemma take_ident_simpleType:
  "take_ident (''simpleType'' @ CHR ''['' # r) = Some (''simpleType'', CHR ''['' # r)"
  by (simp add: take_ident_def is_ident_start_def is_ident_char_def is_digit_def)

lemma take_ident_name:
  "take_ident (''name'' @ CHR ''='' # r) = Some (''name'', CHR ''='' # r)"
  by (simp add: take_ident_def is_ident_start_def is_ident_char_def is_digit_def)

lemma take_value_plain:
  assumes "list_all is_plain_char v"
  shows "take_value (v @ CHR 0x22 # r) = Some (v, r)"
proof -
  from assms have all: "\<And>c. c \<in> set v \<Longrightarrow> is_plain_char c" by (simp add: list_all_iff)
  have q: "\<not> is_plain_char CHR 0x22" by (simp add: is_plain_char_def)
  from all q have "dropWhile is_plain_char (v @ CHR 0x22 # r) = CHR 0x22 # r"
    by (simp add: dropWhile_append2)
  moreover from all q have "takeWhile is_plain_char (v @ CHR 0x22 # r) = v"
    by (simp add: takeWhile_append2)
  ultimately show ?thesis by (simp add: take_value_def)
qed

lemma parse_compound_complexType:
  "list_all is_plain_char v \<Longrightarrow>
   parse_compound (''complexType[name='' @ CHR 0x22 # v @ CHR 0x22 # CHR '']'' # r)
     = Some (Selector ''complexType'' ''name'' v, r)"
  using take_ident_complexType [of "''name='' @ CHR 0x22 # v @ CHR 0x22 # CHR '']'' # r"]
    take_ident_name [of "CHR 0x22 # v @ CHR 0x22 # CHR '']'' # r"]
  by (simp add: parse_compound_def expect_def take_value_plain)

lemma parse_compound_simpleType:
  "list_all is_plain_char v \<Longrightarrow>
   parse_compound (''simpleType[name='' @ CHR 0x22 # v @ CHR 0x22 # CHR '']'' # r)
     = Some (Selector ''simpleType'' ''name'' v, r)"
  using take_ident_simpleType [of "''name='' @ CHR 0x22 # v @ CHR 0x22 # CHR '']'' # r"]
    take_ident_name [of "CHR 0x22 # v @ CHR 0x22 # CHR '']'' # r"]
  by (simp add: parse_compound_def expect_def take_value_plain)

lemma parse_type_selector:
  assumes "list_all is_plain_char ty"
  shows \<open>parse_selectors (''complexType[name="'' @ ty @ ''"],''
                           @ ''simpleType[name="'' @ ty @ ''"]'')
           = Some [Selector ''complexType'' ''name'' ty, Selector ''simpleType'' ''name'' ty]\<close>
proof -
  let ?s2 = "''simpleType[name='' @ CHR 0x22 # ty @ CHR 0x22 # CHR '']'' # []"
  let ?s1 = "''complexType[name='' @ CHR 0x22 # ty @ CHR 0x22 # CHR '']'' # CHR '','' # ?s2"
  have c2: "parse_compound ?s2 = Some (Selector ''simpleType'' ''name'' ty, [])"
    by (rule parse_compound_simpleType [OF assms])
  have c1: "parse_compound ?s1 = Some (Selector ''complexType'' ''name'' ty, CHR '','' # ?s2)"
    by (rule parse_compound_complexType [OF assms])
  have 2: "parse_selectors ?s2 = Some [Selector ''simpleType'' ''name'' ty]"
    by (subst parse_selectors.simps) (simp only: c2 option.case prod.case list.case)
  have 1: "parse_selectors ?s1
             = Some [Selector ''complexType'' ''name'' ty, Selector ''simpleType'' ''name'' ty]"
    by (subst parse_selectors.simps)
      (simp only: c1 2 option.case prod.case list.case if_True simp_thms option.map)
  from 1 show ?thesis by simp
qed

text \<open>
  For a type name without quote, backslash, line break or U+0000 the query selects, in tree
  order, every element whose local name is \<open>complexType\<close> or \<open>simpleType\<close> and that has
  an attribute \<open>name\<close> in no namespace with that value. The element's namespace is not
  looked at.
\<close>

lemma findTypeDefinition_plain:
  assumes "list_all is_plain_char ty"
  shows "findTypeDefinition doc ty =
           Inr (filter (\<lambda>n. (localName_of n = ''complexType'' \<or> localName_of n = ''simpleType'')
                           \<and> list_ex (\<lambda>a. attr_namespaceURI a = None
                                          \<and> attr_localName a = ''name''
                                          \<and> attr_value a = ty)
                                 (el_attributes (self n)))
                  (case doc_root doc of None \<Rightarrow> [] | Some r \<Rightarrow> subtree [] r))"
proof -
  have "(\<lambda>n. list_ex (\<lambda>sel. matches sel n)
               [Selector ''complexType'' ''name'' ty, Selector ''simpleType'' ''name'' ty])
        = (\<lambda>n. (localName_of n = ''complexType'' \<or> localName_of n = ''simpleType'')
                \<and> list_ex (\<lambda>a. attr_namespaceURI a = None
                               \<and> attr_localName a = ''name''
                               \<and> attr_value a = ty)
                      (el_attributes (self n)))"
    by (auto simp: matches_def fun_eq_iff)
  then show ?thesis
    unfolding findTypeDefinition_def querySelectorAll_def Let_def
      parse_type_selector [OF assms]
    by simp
qed

subsection \<open>Calls and their state\<close>



text \<open>
  With \<open>xsd.xs\<close> and \<open>_\<close> as the module is loaded, a call returns what the function does
  on the document or node that the call names.
\<close>

lemma calls_refine:
  assumes "xsd_xs w = xs" and "underscore_find w = find"
  shows "document_of w d = Some doc \<Longrightarrow>
           fst (invoke (FindElement d nm) w)
             = (case findElement doc nm of Inl err \<Rightarrow> Raised err | Inr r \<Rightarrow> Found r)"
    and "document_of w d = Some doc \<Longrightarrow>
           fst (invoke (FindTypeDefinition d ty) w)
             = (case findTypeDefinition doc ty of Inl err \<Rightarrow> Raised err | Inr r \<Rightarrow> Nodes r)"
    and "node_of w r = Some node \<Longrightarrow>
           fst (invoke (GetTypeFromNodeAttr r a ns) w) = TypeRef (getTypeFromNodeAttr node a ns)"
    and "node_of w r = Some node \<Longrightarrow>
           fst (invoke (GetRestrictedType r) w) = TypeRef (getRestrictedType node)"
    and "node_of w r = Some node \<Longrightarrow>
           fst (invoke (FindRestrictingFacets r) w)
             = (case findRestrictingFacets node of Inl err \<Rightarrow> Raised err | Inr r \<Rightarrow> Nodes r)"
    and "node_of w r = Some node \<Longrightarrow>
           fst (invoke (ParseMinMaxOccurs r) w) = Occurs (parseMinMaxOccurs node)"
  using assms
  by (simp_all add: call_findElement_def call_findTypeDefinition_def
      call_getTypeFromNodeAttr_def this_getTypeFromNodeAttr_def call_getRestrictedType_def call_findRestrictingFacets_def
      call_parseMinMaxOccurs_def findElement_def getRestrictedType_def
      findRestrictingFacets_def split: option.split sum.split)

subsection \<open>The example documents\<close>

lemma sample_children:
  "children_of schema_node
     = [Node order_type_el [schema_el], order_node, code_type_node]"
  "children_of code_type_node = [restriction_node]"
  "children_of restriction_node = [Node facet_el [restriction_el, code_type_el, schema_el]]"
  by (simp_all add: children_of_def schema_node_def schema_el_def order_node_def
      code_type_node_def code_type_el_def restriction_node_def restriction_el_def)

lemma sample_item_attrs:
  "getAttribute item_node ''minOccurs'' = Some ''0''"
  "getAttribute item_node ''maxOccurs'' = Some ''5''"
  "getAttribute item_node ''type'' = Some ''xs:string''"
  by (simp_all add: getAttribute_def item_node_def item_el_def attr_qualifiedName_def)

lemma sample_restriction:
  "xs_restriction restriction_node"
  by (simp add: xs_restriction_def restriction_node_def restriction_el_def
      namespaceURI_of_def localName_of_def)

lemma sample_base:
  "getTypeFromNodeAttr restriction_node ''base'' None
     = Some \<lparr>namespaceURI = Some xs, name = Some ''string''\<rparr>"
  by (simp add: getTypeFromNodeAttr_def getAttribute_def restriction_node_def restriction_el_def
      attr_qualifiedName_def split_first split_second lookupNamespaceURI_def Let_def)

lemma sample_names:
  "\<not> xs_element_named ''item'' (Node order_type_el [schema_el])"
  "\<not> xs_element_named ''item'' order_node"
  "\<not> xs_element_named ''item'' code_type_node"
  "xs_element_named ''item'' item_node"
  by (simp_all add: xs_element_named_def order_type_el_def order_node_def order_el_def
      code_type_node_def code_type_el_def item_node_def item_el_def
      namespaceURI_of_def localName_of_def getAttribute_def attr_qualifiedName_def)


lemma sample_order_type:
  "read_attr order_node ''type'' None = Some ''Order''"
  by (simp add: read_attr_def getAttribute_def order_node_def order_el_def attr_qualifiedName_def)

section \<open>Properties of the module\<close>

subsection \<open>parseMinMaxOccurs\<close>

text \<open>
  C1. For every node, \<open>parseMinMaxOccurs\<close> returns a record of two fields. The minimum is
  1 when the \<open>minOccurs\<close> attribute is absent or empty, and otherwise the attribute text
  parsed as a base-10 integer. The maximum is 1 when the \<open>maxOccurs\<close> attribute is absent
  or empty, positive infinity when it is exactly \<open>unbounded\<close>, and otherwise the attribute
  text parsed as a base-10 integer, which is a JavaScript number. In particular the
  decimal numeral of \<open>k\<close> gives \<open>k\<close> for every \<open>k\<close> below \<open>2 ^ 53\<close>.
\<close>

theorem parseMinMaxOccurs_fields:
  "(getAttribute n ''minOccurs'' = None \<or> getAttribute n ''minOccurs'' = Some []
      \<longrightarrow> min_occ (parseMinMaxOccurs n) = Integer 1)
   \<and> (\<forall>m. getAttribute n ''minOccurs'' = Some m \<and> m \<noteq> []
      \<longrightarrow> min_occ (parseMinMaxOccurs n) = parseInt10 m)
   \<and> (\<forall>k. k < 2 ^ 53 \<and> getAttribute n ''minOccurs'' = Some (decimal k)
      \<longrightarrow> min_occ (parseMinMaxOccurs n) = Integer (int k))
   \<and> (getAttribute n ''maxOccurs'' = None \<or> getAttribute n ''maxOccurs'' = Some []
      \<longrightarrow> max_occ (parseMinMaxOccurs n) = Integer 1)
   \<and> (getAttribute n ''maxOccurs'' = Some ''unbounded''
      \<longrightarrow> max_occ (parseMinMaxOccurs n) = Infinity)
   \<and> (\<forall>m. getAttribute n ''maxOccurs'' = Some m \<and> m \<noteq> [] \<and> m \<noteq> ''unbounded''
      \<longrightarrow> max_occ (parseMinMaxOccurs n) = parseInt10 m)
   \<and> (\<forall>k. k < 2 ^ 53 \<and> getAttribute n ''maxOccurs'' = Some (decimal k)
      \<longrightarrow> max_occ (parseMinMaxOccurs n) = Integer (int k))"
proof -
  have ne: "decimal k \<noteq> []" for k using decimal_digits [of k] by simp
  show ?thesis
    by (auto simp: parseMinMaxOccurs_def Let_def parseInt10_decimal ne decimal_not_unbounded)
qed

theorem parseMinMaxOccurs_fields_witness:
  "getAttribute item_node ''minOccurs'' = Some ''0''
   \<and> getAttribute item_node ''maxOccurs'' = Some ''5''
   \<and> min_occ (parseMinMaxOccurs item_node) = Integer 0
   \<and> max_occ (parseMinMaxOccurs item_node) = Integer 5"
  using parseMinMaxOccurs_fields [of item_node]
  by (simp add: sample_item_attrs parseInt10_samples)

text \<open>
  C8, as amended. \<open>parseMinMaxOccurs\<close> raises nothing. A present, non-empty \<open>minOccurs\<close>
  text, or \<open>maxOccurs\<close> text other than \<open>unbounded\<close>, gives a not-a-number field exactly
  when the text does not begin, after leading white space and at most one sign, with a
  decimal digit. A text that begins with decimal digits followed by another character
  gives the number of its leading digits alone.
\<close>

theorem parseMinMaxOccurs_not_a_number:
  "(\<forall>m. getAttribute n ''minOccurs'' = Some m \<and> m \<noteq> []
      \<longrightarrow> (min_occ (parseMinMaxOccurs n) = NaN \<longleftrightarrow> \<not> has_leading_digits m))
   \<and> (\<forall>m. getAttribute n ''maxOccurs'' = Some m \<and> m \<noteq> [] \<and> m \<noteq> ''unbounded''
      \<longrightarrow> (max_occ (parseMinMaxOccurs n) = NaN \<longleftrightarrow> \<not> has_leading_digits m))
   \<and> (\<forall>ds c rest. getAttribute n ''minOccurs'' = Some (ds @ c # rest)
          \<and> ds \<noteq> [] \<and> list_all is_digit ds \<and> \<not> is_digit c
      \<longrightarrow> min_occ (parseMinMaxOccurs n) = parseInt10 ds \<and> parseInt10 ds \<noteq> NaN)
   \<and> (\<forall>ds c rest. getAttribute n ''maxOccurs'' = Some (ds @ c # rest)
          \<and> ds \<noteq> [] \<and> list_all is_digit ds \<and> \<not> is_digit c
      \<longrightarrow> max_occ (parseMinMaxOccurs n) = parseInt10 ds \<and> parseInt10 ds \<noteq> NaN)"
proof (intro conjI allI impI)
  fix m assume "getAttribute n ''minOccurs'' = Some m \<and> m \<noteq> []"
  then show "min_occ (parseMinMaxOccurs n) = NaN \<longleftrightarrow> \<not> has_leading_digits m"
    by (simp add: parseMinMaxOccurs_def Let_def parseInt10_NaN_iff)
next
  fix m assume "getAttribute n ''maxOccurs'' = Some m \<and> m \<noteq> [] \<and> m \<noteq> ''unbounded''"
  then show "max_occ (parseMinMaxOccurs n) = NaN \<longleftrightarrow> \<not> has_leading_digits m"
    by (simp add: parseMinMaxOccurs_def Let_def parseInt10_NaN_iff)
next
  fix ds c rest
  assume a: "getAttribute n ''minOccurs'' = Some (ds @ c # rest)
             \<and> ds \<noteq> [] \<and> list_all is_digit ds \<and> \<not> is_digit c"
  then show "min_occ (parseMinMaxOccurs n) = parseInt10 ds"
    by (simp add: parseMinMaxOccurs_def Let_def parseInt10_leading_digits)
  from a obtain d ds' where "ds = d # ds'" "is_digit d" by (cases ds) auto
  then show "parseInt10 ds \<noteq> NaN" by (simp add: parseInt10_digit_first to_number_not_NaN)
next
  fix ds c rest
  assume a: "getAttribute n ''maxOccurs'' = Some (ds @ c # rest)
             \<and> ds \<noteq> [] \<and> list_all is_digit ds \<and> \<not> is_digit c"
  then obtain d ds' where ds: "ds = d # ds'" "is_digit d" by (cases ds) auto
  then have "d \<noteq> CHR ''u''" by (auto simp: is_digit_def)
  with ds have "ds @ c # rest \<noteq> ''unbounded''" by simp
  with a show "max_occ (parseMinMaxOccurs n) = parseInt10 ds"
    by (simp add: parseMinMaxOccurs_def Let_def parseInt10_leading_digits)
  from ds show "parseInt10 ds \<noteq> NaN" by (simp add: parseInt10_digit_first to_number_not_NaN)
qed

theorem parseMinMaxOccurs_not_a_number_witness:
  "getAttribute no_digits ''minOccurs'' = Some ''many''
   \<and> \<not> has_leading_digits ''many''
   \<and> min_occ (parseMinMaxOccurs no_digits) = NaN"
proof -
  have a: "getAttribute no_digits ''minOccurs'' = Some ''many''"
    by (simp add: getAttribute_def no_digits_def attr_qualifiedName_def)
  have b: "\<not> has_leading_digits ''many''"
    by (simp add: has_leading_digits_def is_white_space_def is_digit_def)
  from parseMinMaxOccurs_not_a_number [of no_digits] a b show ?thesis by simp
qed

text \<open>
  The text \<open>5abc\<close> is not an integer, and yet the field is 5: digits at the start are
  read and the rest is ignored.
\<close>

theorem parseMinMaxOccurs_digits_then_text_counterexample:
  "getAttribute digits_then_text ''minOccurs'' = Some ''5abc''
   \<and> \<not> list_all is_digit ''5abc''
   \<and> min_occ (parseMinMaxOccurs digits_then_text) = Integer 5
   \<and> min_occ (parseMinMaxOccurs digits_then_text) \<noteq> NaN"
  by (simp add: parseMinMaxOccurs_def getAttribute_def digits_then_text_def
      attr_qualifiedName_def parseInt10_def is_white_space_def is_digit_def digit_value_def
      to_number_small)

subsection \<open>getTypeFromNodeAttr\<close>

text \<open>
  C2, as amended. \<open>getTypeFromNodeAttr\<close> returns \<open>null\<close> when the attribute is absent or
  empty. Otherwise the namespace URI is the one bound, at that node, to the text before
  the first colon, and the name is the text between the first colon and the second (or
  the end of the value when there is no second colon); without any colon the name is
  absent.
\<close>

theorem getTypeFromNodeAttr_parts:
  "(read_attr node typeAttr typeAttrNS = None \<or> read_attr node typeAttr typeAttrNS = Some []
      \<longrightarrow> getTypeFromNodeAttr node typeAttr typeAttrNS = None)
   \<and> (\<forall>t. read_attr node typeAttr typeAttrNS = Some t \<and> t \<noteq> []
      \<longrightarrow> getTypeFromNodeAttr node typeAttr typeAttrNS
          = Some \<lparr>namespaceURI =
                     lookupNamespaceURI node (Some (takeWhile (\<lambda>c. c \<noteq> CHR '':'') t)),
                   name =
                     (if CHR '':'' \<in> set t
                      then Some (takeWhile (\<lambda>c. c \<noteq> CHR '':'')
                                   (tl (dropWhile (\<lambda>c. c \<noteq> CHR '':'') t)))
                      else None)\<rparr>)"
  by (auto simp: getTypeFromNodeAttr_read split_first split_second)

theorem getTypeFromNodeAttr_parts_witness:
  "read_attr item_node ''type'' None = Some ''xs:string''
   \<and> getTypeFromNodeAttr item_node ''type'' None
       = Some \<lparr>namespaceURI = Some xs, name = Some ''string''\<rparr>"
proof -
  have a: "read_attr item_node ''type'' None = Some ''xs:string''"
    by (simp add: read_attr_def sample_item_attrs)
  have b: "lookupNamespaceURI item_node (Some ''xs'') = Some xs"
    by (simp add: lookupNamespaceURI_def item_node_def item_el_def)
  from getTypeFromNodeAttr_parts [of item_node "''type''" None] a b show ?thesis
    by simp
qed

text \<open>
  For the value \<open>a:b:c\<close> the name is \<open>b\<close>, not \<open>b:c\<close>.
\<close>

theorem getTypeFromNodeAttr_second_colon_counterexample:
  "getAttribute two_colons ''type'' = Some ''a:b:c''
   \<and> getTypeFromNodeAttr two_colons ''type'' None
       = Some \<lparr>namespaceURI = Some ''urn:a'', name = Some ''b''\<rparr>
   \<and> map_option name (getTypeFromNodeAttr two_colons ''type'' None) \<noteq> Some (Some ''b:c'')"
  by (simp add: getTypeFromNodeAttr_read read_attr_def getAttribute_def two_colons_def
      attr_qualifiedName_def split_first split_second lookupNamespaceURI_def declares_def
      xmlns_namespace_def xs_def)

text \<open>
  C7. When the attribute is read with a value (one that is not empty: the empty value
  is answered with \<open>null\<close> before any splitting) and the value contains no colon,
  \<open>getTypeFromNodeAttr\<close> returns a type reference whose name is absent and whose
  namespace URI is the result of resolving the whole value as a prefix at that node.
\<close>

theorem getTypeFromNodeAttr_no_colon:
  assumes "read_attr node typeAttr typeAttrNS = Some t" and "t \<noteq> []"
    and "CHR '':'' \<notin> set t"
  shows "getTypeFromNodeAttr node typeAttr typeAttrNS
           = Some \<lparr>namespaceURI = lookupNamespaceURI node (Some t), name = None\<rparr>"
proof -
  from assms(3) have tw: "takeWhile (\<lambda>c. c \<noteq> CHR '':'') t = t"
    by (auto intro: takeWhile_eq_all_conv [THEN iffD2])
  from assms show ?thesis
    by (simp add: getTypeFromNodeAttr_read split_first split_second tw)
qed

theorem getTypeFromNodeAttr_no_colon_witness:
  "read_attr order_node ''type'' None = Some ''Order''
   \<and> getTypeFromNodeAttr order_node ''type'' None = Some \<lparr>namespaceURI = None, name = None\<rparr>"
proof -
  have b: "lookupNamespaceURI order_node (Some ''Order'') = None"
    by (simp add: lookupNamespaceURI_def order_node_def order_el_def schema_el_def declares_def)
  from getTypeFromNodeAttr_no_colon [OF sample_order_type] b show ?thesis
    by (simp add: sample_order_type)
qed

subsection \<open>findElement\<close>

text \<open>
  C3. For a document with a root element, \<open>findElement\<close> looks at the direct children
  of the root only. It returns the first child, in document order, that is in the XML
  Schema namespace, has the local name \<open>element\<close> and whose \<open>name\<close> attribute equals the
  given name; the parent of the returned node is the root, so an element nested deeper
  is never returned. It returns an absent result when no direct child qualifies.
\<close>

theorem findElement_first_direct_child:
  assumes "documentElement doc = Some root"
  shows "(findElement doc nm = Inr None
            \<longleftrightarrow> \<not> list_ex (xs_element_named nm) (children_of root))
         \<and> (\<forall>c. findElement doc nm = Inr (Some c)
            \<longleftrightarrow> (\<exists>i<length (children_of root).
                   c = children_of root ! i
                   \<and> xs_element_named nm c
                   \<and> (\<forall>j<i. \<not> xs_element_named nm (children_of root ! j))))
         \<and> (\<forall>c. findElement doc nm = Inr (Some c) \<longrightarrow> ancestors c = [self root])"
proof -
  from assms have fe: "findElement doc nm = Inr (find (xs_element_named nm) (children_of root))"
    by (simp add: findElement_def find_element_named)
  from assms have top: "ancestors root = []"
    by (auto simp: documentElement_def)
  have none: "findElement doc nm = Inr None
                \<longleftrightarrow> \<not> list_ex (xs_element_named nm) (children_of root)"
    by (auto simp: fe find_None_iff list_ex_iff)
  have some: "findElement doc nm = Inr (Some c)
                \<longleftrightarrow> (\<exists>i<length (children_of root).
                       c = children_of root ! i
                       \<and> xs_element_named nm c
                       \<and> (\<forall>j<i. \<not> xs_element_named nm (children_of root ! j)))" for c
    by (auto simp: fe find_Some_iff)
  have direct: "ancestors c = [self root]" if "findElement doc nm = Inr (Some c)" for c
  proof -
    from that have "find (xs_element_named nm) (children_of root) = Some c" by (simp add: fe)
    then have "c \<in> set (children_of root)" by (auto simp: find_Some_iff)
    then show ?thesis by (auto simp: children_of_def top)
  qed
  from none some direct show ?thesis by blast
qed

theorem findElement_first_direct_child_witness:
  "documentElement schema_doc = Some schema_node
   \<and> xs_element_named ''item'' item_node
   \<and> findElement schema_doc ''item'' = Inr None"
proof -
  have a: "documentElement schema_doc = Some schema_node"
    by (simp add: documentElement_def schema_doc_def schema_node_def)
  have "\<not> list_ex (xs_element_named ''item'') (children_of schema_node)"
    by (simp add: sample_children sample_names)
  with findElement_first_direct_child [OF a, of "''item''"] a show ?thesis
    by (simp add: sample_names)
qed

subsection \<open>findTypeDefinition\<close>

text \<open>
  C4. \<open>findTypeDefinition\<close> is stated to return the \<open>complexType\<close> and \<open>simpleType\<close>
  elements of the XML Schema namespace whose name matches. On a schema that holds a
  \<open>complexType\<close> element of the namespace \<open>urn:other\<close> named \<open>T\<close>, the query for \<open>T\<close>
  returns that element.
\<close>

theorem findTypeDefinition_foreign_namespace:
  "findTypeDefinition foreign_doc ''T'' = Inr [Node foreign_type_el [foreign_schema_el]]
   \<and> namespaceURI_of (Node foreign_type_el [foreign_schema_el]) = Some ''urn:other''
   \<and> Some ''urn:other'' \<noteq> Some xs"
proof -
  have p: "list_all is_plain_char ''T''" by (simp add: is_plain_char_def)
  show ?thesis
    by (simp add: findTypeDefinition_plain [OF p] foreign_doc_def foreign_schema_el_def
        foreign_type_el_def localName_of_def namespaceURI_of_def xs_def)
qed

subsection \<open>getRestrictedType and findRestrictingFacets\<close>

text \<open>
  C5. \<open>getRestrictedType\<close> returns \<open>null\<close> when the node has no direct child in the XML
  Schema namespace with local name \<open>restriction\<close>; otherwise its result is that of
  \<open>getTypeFromNodeAttr\<close> on the first such child with the attribute name \<open>base\<close>.
\<close>

theorem getRestrictedType_spec:
  "(\<not> list_ex xs_restriction (children_of node) \<longrightarrow> getRestrictedType node = None)
   \<and> (\<forall>i. i < length (children_of node)
          \<and> xs_restriction (children_of node ! i)
          \<and> (\<forall>j<i. \<not> xs_restriction (children_of node ! j))
        \<longrightarrow> getRestrictedType node
            = getTypeFromNodeAttr (children_of node ! i) ''base'' None)"
proof (intro conjI impI allI)
  assume "\<not> list_ex xs_restriction (children_of node)"
  then have "find xs_restriction (children_of node) = None"
    by (simp add: find_None_iff list_ex_iff)
  then show "getRestrictedType node = None"
    by (simp add: getRestrictedType_def find_restriction)
next
  fix i
  assume "i < length (children_of node)
          \<and> xs_restriction (children_of node ! i)
          \<and> (\<forall>j<i. \<not> xs_restriction (children_of node ! j))"
  then have "find xs_restriction (children_of node) = Some (children_of node ! i)"
    by (simp add: find_first_index)
  then show "getRestrictedType node = getTypeFromNodeAttr (children_of node ! i) ''base'' None"
    by (simp add: getRestrictedType_def find_restriction)
qed

theorem getRestrictedType_spec_witness:
  "xs_restriction (children_of code_type_node ! 0)
   \<and> getRestrictedType code_type_node
       = Some \<lparr>namespaceURI = Some xs, name = Some ''string''\<rparr>"
  using getRestrictedType_spec [of code_type_node]
  by (simp add: sample_children sample_restriction sample_base)

text \<open>
  C6. When the node has a direct child in the XML Schema namespace with local name
  \<open>restriction\<close>, \<open>findRestrictingFacets\<close> returns all children of the first such child,
  in document order; when it has none, the call raises an error instead of returning.
\<close>

theorem findRestrictingFacets_spec:
  "(\<forall>i. i < length (children_of node)
          \<and> xs_restriction (children_of node ! i)
          \<and> (\<forall>j<i. \<not> xs_restriction (children_of node ! j))
        \<longrightarrow> findRestrictingFacets node = Inr (children_of (children_of node ! i)))
   \<and> (\<not> list_ex xs_restriction (children_of node)
        \<longrightarrow> findRestrictingFacets node = Inl TypeError)"
proof (intro conjI impI allI)
  assume "\<not> list_ex xs_restriction (children_of node)"
  then have "find xs_restriction (children_of node) = None"
    by (simp add: find_None_iff list_ex_iff)
  then show "findRestrictingFacets node = Inl TypeError"
    by (simp add: findRestrictingFacets_def find_restriction)
next
  fix i
  assume "i < length (children_of node)
          \<and> xs_restriction (children_of node ! i)
          \<and> (\<forall>j<i. \<not> xs_restriction (children_of node ! j))"
  then have "find xs_restriction (children_of node) = Some (children_of node ! i)"
    by (simp add: find_first_index)
  then show "findRestrictingFacets node = Inr (children_of (children_of node ! i))"
    by (simp add: findRestrictingFacets_def find_restriction)
qed

theorem findRestrictingFacets_spec_witness:
  "xs_restriction (children_of code_type_node ! 0)
   \<and> findRestrictingFacets code_type_node
       = Inr [Node facet_el [restriction_el, code_type_el, schema_el]]"
  using findRestrictingFacets_spec [of code_type_node]
  by (simp add: sample_children sample_restriction)

text \<open>
  C9. Whenever \<open>getRestrictedType\<close> returns a result other than \<open>null\<close>,
  \<open>findRestrictingFacets\<close> on the same node raises nothing, and both work on one and the
  same element: the first direct child in the XML Schema namespace with local name
  \<open>restriction\<close>.
\<close>

theorem restriction_checked_then_facets:
  assumes "getRestrictedType node \<noteq> None"
  shows "\<exists>i<length (children_of node).
           xs_restriction (children_of node ! i)
           \<and> (\<forall>j<i. \<not> xs_restriction (children_of node ! j))
           \<and> getRestrictedType node = getTypeFromNodeAttr (children_of node ! i) ''base'' None
           \<and> findRestrictingFacets node = Inr (children_of (children_of node ! i))"
proof -
  from assms obtain r where r: "find xs_restriction (children_of node) = Some r"
    by (auto simp: getRestrictedType_def find_restriction split: option.splits)
  then obtain i where i: "i < length (children_of node)" "xs_restriction (children_of node ! i)"
      "r = children_of node ! i" "\<forall>j<i. \<not> xs_restriction (children_of node ! j)"
    by (auto simp: find_Some_iff)
  from r i(3) have "getRestrictedType node = getTypeFromNodeAttr (children_of node ! i) ''base'' None"
    by (simp add: getRestrictedType_def find_restriction)
  moreover from r i(3) have "findRestrictingFacets node = Inr (children_of (children_of node ! i))"
    by (simp add: findRestrictingFacets_def find_restriction)
  ultimately show ?thesis using i by blast
qed

theorem restriction_checked_then_facets_witness:
  "getRestrictedType code_type_node \<noteq> None
   \<and> findRestrictingFacets code_type_node = Inr (children_of restriction_node)"
proof -
  have a: "getRestrictedType code_type_node \<noteq> None"
    by (simp add: getRestrictedType_def find_restriction sample_children sample_restriction
        sample_base)
  from restriction_checked_then_facets [OF a] have
    "findRestrictingFacets code_type_node = Inr (children_of (children_of code_type_node ! 0))"
    by (simp add: sample_children)
  with a show ?thesis by (simp add: sample_children)
qed

subsection \<open>Determinism\<close>



end
